theory Spec2Isabelle
  imports Complex_Main
begin

section \<open>Python string helpers\<close>

text \<open>
  Strings are lists of characters. The models below are used on ASCII text (interface
  names, command output), where a \<^typ>\<open>char\<close> is one Python code point.
\<close>

definition digit_chr :: "nat \<Rightarrow> char" where
  "digit_chr d = ''0123456789'' ! d"

text \<open>\<^verbatim>\<open>str(n)\<close> for a non-negative integer: its decimal digits.\<close>

function str_nat :: "nat \<Rightarrow> string" where
  "str_nat n = (if n < 10 then [digit_chr n] else str_nat (n div 10) @ [digit_chr (n mod 10)])"
  by pat_completeness auto
termination
  by (relation "measure id") auto

declare str_nat.simps [simp del]

text \<open>\<^verbatim>\<open>str(i)\<close>, as an f-string renders an \<^verbatim>\<open>int\<close>.\<close>

definition str_int :: "int \<Rightarrow> string" where
  "str_int i = (if i < 0 then CHR ''-'' # str_nat (nat (- i)) else str_nat (nat i))"

section \<open>The range compressor: \<^verbatim>\<open>CiscoManager._create_port_ranges\<close>\<close>

text \<open>
  The two branches that close a range: \<^verbatim>\<open>f"gi{slot_prefix}/{start}"\<close> when start
  and end coincide, \<^verbatim>\<open>f"gi{slot_prefix}/{start}-{end}"\<close> otherwise.
\<close>

definition range_str :: "string \<Rightarrow> int \<Rightarrow> int \<Rightarrow> string" where
  "range_str slot_prefix range_start range_end =
     (if range_start = range_end
      then ''gi'' @ slot_prefix @ ''/'' @ str_int range_start
      else ''gi'' @ slot_prefix @ ''/'' @ str_int range_start @ ''-'' @ str_int range_end)"

text \<open>
  The \<^verbatim>\<open>for\<close> loop of \<^verbatim>\<open>_create_port_ranges\<close>. The state is the list
  \<^verbatim>\<open>ranges\<close> and the pair \<^verbatim>\<open>(current_range_start, current_range_end)\<close>, which
  the source sets together and which is \<^verbatim>\<open>None\<close> before the first port. The empty
  list case is the code after the loop ("Add final range").
\<close>

fun create_port_ranges_loop ::
  "string \<Rightarrow> int list \<Rightarrow> string list \<Rightarrow> (int \<times> int) option \<Rightarrow> string list" where
  "create_port_ranges_loop slot_prefix [] ranges cur =
     (case cur of
        None \<Rightarrow> ranges
      | Some (s, e) \<Rightarrow> ranges @ [range_str slot_prefix s e])"
| "create_port_ranges_loop slot_prefix (port # ports) ranges cur =
     (case cur of
        None \<Rightarrow> create_port_ranges_loop slot_prefix ports ranges (Some (port, port))
      | Some (s, e) \<Rightarrow>
          if port = e + 1
          then create_port_ranges_loop slot_prefix ports ranges (Some (s, port))
          else create_port_ranges_loop slot_prefix ports
                 (ranges @ [range_str slot_prefix s e]) (Some (port, port)))"

definition create_port_ranges :: "string \<Rightarrow> int list \<Rightarrow> string list" where
  "create_port_ranges slot_prefix ports = create_port_ranges_loop slot_prefix ports [] None"

text \<open>
  The same scan, keeping each closed range as the pair (start, end) it was rendered from.
  \<open>create_port_ranges_runs\<close> below shows that the strings of \<open>create_port_ranges\<close>
  are exactly the renderings of these pairs, in order.
\<close>

fun port_runs_loop :: "int list \<Rightarrow> (int \<times> int) option \<Rightarrow> (int \<times> int) list" where
  "port_runs_loop [] cur = (case cur of None \<Rightarrow> [] | Some r \<Rightarrow> [r])"
| "port_runs_loop (port # ports) cur =
     (case cur of
        None \<Rightarrow> port_runs_loop ports (Some (port, port))
      | Some (s, e) \<Rightarrow>
          if port = e + 1 then port_runs_loop ports (Some (s, port))
          else (s, e) # port_runs_loop ports (Some (port, port)))"

definition port_runs :: "int list \<Rightarrow> (int \<times> int) list" where
  "port_runs ports = port_runs_loop ports None"

text \<open>Expanding a range: every port from start to end.\<close>

definition expand_range :: "int \<times> int \<Rightarrow> int list" where
  "expand_range r = [fst r..snd r]"

text \<open>Two ranges in output order leave a gap: the later one starts beyond end + 1.\<close>

definition range_gap :: "int \<times> int \<Rightarrow> int \<times> int \<Rightarrow> bool" where
  "range_gap r r' \<longleftrightarrow> snd r + 1 < fst r'"

section \<open>More of Python's \<^verbatim>\<open>str\<close> methods\<close>

text \<open>
  \<^verbatim>\<open>str.isspace\<close> on the ASCII range: tab, line feed, vertical tab, form feed,
  carriage return, the four separators 0x1C..0x1F and the space.
\<close>

definition is_space :: "char \<Rightarrow> bool" where
  "is_space c = (let n = (of_char c :: nat) in (9 \<le> n \<and> n \<le> 13) \<or> (28 \<le> n \<and> n \<le> 32))"

definition is_digit :: "char \<Rightarrow> bool" where
  "is_digit c = (let n = (of_char c :: nat) in 48 \<le> n \<and> n \<le> 57)"

definition is_alpha :: "char \<Rightarrow> bool" where
  "is_alpha c = (let n = (of_char c :: nat) in (65 \<le> n \<and> n \<le> 90) \<or> (97 \<le> n \<and> n \<le> 122))"

definition digit_val :: "char \<Rightarrow> nat" where
  "digit_val c = of_char c - 48"

text \<open>\<^verbatim>\<open>s.strip()\<close>\<close>

definition strip :: "string \<Rightarrow> string" where
  "strip s = rev (dropWhile is_space (rev (dropWhile is_space s)))"

text \<open>\<^verbatim>\<open>s.startswith(p)\<close> and \<^verbatim>\<open>s.endswith(p)\<close>\<close>

definition startswith :: "string \<Rightarrow> string \<Rightarrow> bool" where
  "startswith s p = (take (length p) s = p)"


text \<open>\<^verbatim>\<open>sub in s\<close>\<close>

fun contains :: "string \<Rightarrow> string \<Rightarrow> bool" where
  "contains [] sub = (sub = [])"
| "contains (c # cs) sub = (startswith (c # cs) sub \<or> contains cs sub)"

text \<open>\<^verbatim>\<open>s.lower()\<close> on ASCII letters.\<close>

definition lower_chr :: "char \<Rightarrow> char" where
  "lower_chr c = (let n = (of_char c :: nat) in if 65 \<le> n \<and> n \<le> 90 then char_of (n + 32) else c)"

definition lower :: "string \<Rightarrow> string" where
  "lower s = map lower_chr s"

text \<open>\<^verbatim>\<open>s.split(sep)\<close> for a one-character separator: always at least one part.\<close>

fun split_chr :: "char \<Rightarrow> string \<Rightarrow> string list" where
  "split_chr sep [] = [[]]"
| "split_chr sep (c # cs) =
     (if c = sep then [] # split_chr sep cs
      else (case split_chr sep cs of
              [] \<Rightarrow> [[c]]
            | part # parts \<Rightarrow> (c # part) # parts))"


text \<open>
  \<^verbatim>\<open>s.split()\<close>: the maximal runs of non-whitespace characters. \<open>word\<close> is the
  run being read.
\<close>

fun split_ws_from :: "string \<Rightarrow> string \<Rightarrow> string list" where
  "split_ws_from word [] = (if word = [] then [] else [word])"
| "split_ws_from word (c # cs) =
     (if is_space c
      then (if word = [] then split_ws_from [] cs else word # split_ws_from [] cs)
      else split_ws_from (word @ [c]) cs)"

definition split_ws :: "string \<Rightarrow> string list" where
  "split_ws s = split_ws_from [] s"

text \<open>\<^verbatim>\<open>sep.join(parts)\<close>\<close>

fun join :: "string \<Rightarrow> string list \<Rightarrow> string" where
  "join sep [] = []"
| "join sep [part] = part"
| "join sep (part # parts) = part @ sep @ join sep parts"

text \<open>
  \<^verbatim>\<open>interface.replace('Gi', '')\<close>: every occurrence of \<^verbatim>\<open>Gi\<close> is removed,
  scanning from the left without overlaps.
\<close>

fun remove_Gi :: "string \<Rightarrow> string" where
  "remove_Gi (a # b # cs) =
     (if a = CHR ''G'' \<and> b = CHR ''i'' then remove_Gi cs else a # remove_Gi (b # cs))"
| "remove_Gi cs = cs"

text \<open>
  \<^verbatim>\<open>int(s)\<close> on ASCII text. The whitespace that \<^verbatim>\<open>int\<close> ignores around the
  number is narrower than that of \<^verbatim>\<open>str.strip\<close>: the characters 0x09..0x0D and the
  space, not 0x1C..0x1F. One sign is allowed, and the digits may be separated by single
  underscores. \<open>None\<close> stands for the \<^verbatim>\<open>ValueError\<close> that \<^verbatim>\<open>int\<close> raises
  on anything else.
\<close>

definition is_int_space :: "char \<Rightarrow> bool" where
  "is_int_space c = (let n = (of_char c :: nat) in (9 \<le> n \<and> n \<le> 13) \<or> n = 32)"

definition int_strip :: "string \<Rightarrow> string" where
  "int_strip s = rev (dropWhile is_int_space (rev (dropWhile is_int_space s)))"

fun py_digits :: "nat \<Rightarrow> string \<Rightarrow> nat option" where
  "py_digits acc [] = Some acc"
| "py_digits acc [c] = (if is_digit c then Some (10 * acc + digit_val c) else None)"
| "py_digits acc (c # d # cs) =
     (if is_digit c then py_digits (10 * acc + digit_val c) (d # cs)
      else if c = CHR ''_'' \<and> is_digit d then py_digits acc (d # cs)
      else None)"

definition py_nat :: "string \<Rightarrow> nat option" where
  "py_nat s = (case s of
                 [] \<Rightarrow> None
               | c # cs \<Rightarrow> if is_digit c then py_digits (digit_val c) cs else None)"

definition py_int :: "string \<Rightarrow> int option" where
  "py_int s =
     (case int_strip s of
        [] \<Rightarrow> None
      | c # cs \<Rightarrow>
          if c = CHR ''-'' then map_option (\<lambda>n. - int n) (py_nat cs)
          else if c = CHR ''+'' then map_option int (py_nat cs)
          else map_option int (py_nat (c # cs)))"

section \<open>Interface ranges: \<^verbatim>\<open>CiscoManager._create_interface_ranges\<close>\<close>

text \<open>
  What the body of the \<^verbatim>\<open>for interface in interfaces\<close> loop does with one
  identifier: it is skipped without a trace when it does not start with \<^verbatim>\<open>Gi\<close> or
  does not split into three parts, it raises when \<^verbatim>\<open>int(parts[2])\<close> does, and
  otherwise it contributes a port number to its slot prefix.
\<close>

datatype parsed_interface = Skipped | Raises | Port string int

definition parse_interface :: "string \<Rightarrow> parsed_interface" where
  "parse_interface interface =
     (if startswith interface ''Gi'' then
        (let parts = split_chr CHR ''/'' (remove_Gi interface) in
         if length parts = 3 then
           (case py_int (parts ! 2) of
              None \<Rightarrow> Raises
            | Some port_num \<Rightarrow> Port (parts ! 0 @ ''/'' @ parts ! 1) port_num)
         else Skipped)
      else Skipped)"

text \<open>
  \<^verbatim>\<open>interface_groups\<close> is a dict from slot prefix to the list of its ports, in
  insertion order: an association list.
\<close>

fun group_append :: "(string \<times> int list) list \<Rightarrow> string \<Rightarrow> int \<Rightarrow> (string \<times> int list) list" where
  "group_append [] slot_prefix port_num = [(slot_prefix, [port_num])]"
| "group_append ((k, ports) # groups) slot_prefix port_num =
     (if k = slot_prefix then (k, ports @ [port_num]) # groups
      else (k, ports) # group_append groups slot_prefix port_num)"

text \<open>The grouping loop; \<open>None\<close> when an identifier raises.\<close>

fun group_interfaces ::
  "(string \<times> int list) list \<Rightarrow> string list \<Rightarrow> (string \<times> int list) list option" where
  "group_interfaces groups [] = Some groups"
| "group_interfaces groups (interface # interfaces) =
     (case parse_interface interface of
        Skipped \<Rightarrow> group_interfaces groups interfaces
      | Raises \<Rightarrow> None
      | Port slot_prefix port_num \<Rightarrow>
          group_interfaces (group_append groups slot_prefix port_num) interfaces)"

text \<open>
  The whole function: each group is sorted and compressed; the \<^verbatim>\<open>except\<close> branch
  falls back to one entry per identifier.
\<close>

definition create_interface_ranges :: "string list \<Rightarrow> string list" where
  "create_interface_ranges interfaces =
     (case group_interfaces [] interfaces of
        Some groups \<Rightarrow>
          concat (map (\<lambda>(slot_prefix, ports). create_port_ranges slot_prefix (sort ports)) groups)
      | None \<Rightarrow> map (\<lambda>interface. ''gi'' @ remove_Gi interface) interfaces)"

section \<open>The channel and \<^verbatim>\<open>CiscoManager._send_config_command_safe\<close>\<close>

text \<open>
  The terminal session is an external collaborator. Its state is a value of an arbitrary
  type \<open>'ch\<close>; its three operations return the new state together with their result,
  where \<open>None\<close> or \<open>False\<close> stands for a raised exception. The optional
  integer of \<open>op_send_command\<close> is the \<^verbatim>\<open>delay_factor\<close> keyword.
\<close>

record 'ch channel_ops =
  op_send_command :: "'ch \<Rightarrow> string \<Rightarrow> int option \<Rightarrow> string option \<times> 'ch"
  op_clear_buffer :: "'ch \<Rightarrow> bool \<times> 'ch"
  op_send_config_set :: "'ch \<Rightarrow> string list \<Rightarrow> bool \<times> 'ch"

text \<open>\<^verbatim>\<open>_clean_buffer_and_wait\<close>: any exception ends it silently.\<close>

definition clean_buffer_and_wait :: "'ch channel_ops \<Rightarrow> 'ch \<Rightarrow> 'ch" where
  "clean_buffer_and_wait ops ch =
     (case op_clear_buffer ops ch of
        (False, ch1) \<Rightarrow> ch1
      | (True, ch1) \<Rightarrow>
          (case op_send_command ops ch1 [] None of
             (None, ch2) \<Rightarrow> ch2
           | (Some _, ch2) \<Rightarrow> snd (op_clear_buffer ops ch2)))"

text \<open>The emergency cleanup of the outer \<^verbatim>\<open>except\<close>: \<^verbatim>\<open>end\<close>, then \<^verbatim>\<open>exit\<close>.\<close>

definition emergency_cleanup :: "'ch channel_ops \<Rightarrow> 'ch \<Rightarrow> 'ch" where
  "emergency_cleanup ops ch =
     (case op_send_command ops ch ''end'' None of
        (None, ch1) \<Rightarrow> ch1
      | (Some _, ch1) \<Rightarrow> snd (op_send_command ops ch1 ''exit'' None))"

text \<open>The manual method's loop over the commands; \<open>False\<close> when one of them raises.\<close>

fun send_each :: "'ch channel_ops \<Rightarrow> 'ch \<Rightarrow> string list \<Rightarrow> bool \<times> 'ch" where
  "send_each ops ch [] = (True, ch)"
| "send_each ops ch (cmd # cmds) =
     (case op_send_command ops ch cmd None of
        (None, ch1) \<Rightarrow> (False, ch1)
      | (Some _, ch1) \<Rightarrow> send_each ops ch1 cmds)"

definition send_config_command_safe :: "'ch channel_ops \<Rightarrow> 'ch \<Rightarrow> string list \<Rightarrow> bool \<times> 'ch" where
  "send_config_command_safe ops ch commands =
     (case op_send_config_set ops ch commands of
        (True, ch1) \<Rightarrow> (True, ch1)
      | (False, ch1) \<Rightarrow>
          (let ch2 = clean_buffer_and_wait ops ch1 in
           case op_send_command ops ch2 ''configure terminal'' None of
             (None, ch3) \<Rightarrow> (False, emergency_cleanup ops ch3)
           | (Some _, ch3) \<Rightarrow>
               (case send_each ops ch3 commands of
                  (False, ch4) \<Rightarrow> (False, emergency_cleanup ops ch4)
                | (True, ch4) \<Rightarrow>
                    (case op_send_command ops ch4 ''end'' None of
                       (None, ch5) \<Rightarrow> (False, emergency_cleanup ops ch5)
                     | (Some _, ch5) \<Rightarrow> (True, clean_buffer_and_wait ops ch5)))))"

section \<open>Bulk operations: \<^verbatim>\<open>bulk_disable_interfaces_optimized\<close> and \<^verbatim>\<open>bulk_enable_interfaces_optimized\<close>\<close>

text \<open>
  The two functions differ in the second command of each batch only.
\<close>

datatype action = Disable | Enable

definition action_command :: "action \<Rightarrow> string" where
  "action_command a = (case a of Disable \<Rightarrow> ''shutdown'' | Enable \<Rightarrow> ''no shutdown'')"

text \<open>
  \<^verbatim>\<open>interfaces[i:i + n] for i in range(0, len(interfaces), n)\<close> with a positive step.
\<close>

function chunks :: "nat \<Rightarrow> 'a list \<Rightarrow> 'a list list" where
  "chunks n xs = (if n = 0 \<or> xs = [] then [] else take n xs # chunks n (drop n xs))"
  by pat_completeness auto
termination
  by (relation "measure (\<lambda>(n, xs). length xs)") auto

declare chunks.simps [simp del]

text \<open>
  The batching loop for any integer \<^verbatim>\<open>max_batch_size\<close>: \<^verbatim>\<open>range\<close> raises
  \<^verbatim>\<open>ValueError\<close> on a zero step (\<open>None\<close>) and is empty on a negative one.
\<close>

definition make_batches :: "int \<Rightarrow> 'a list \<Rightarrow> 'a list list option" where
  "make_batches max_batch_size interfaces =
     (if max_batch_size = 0 then None
      else if max_batch_size < 0 then Some []
      else Some (chunks (nat max_batch_size) interfaces))"

text \<open>\<^verbatim>\<open>for interface in batch: results[interface] = success\<close>\<close>

fun mark_all :: "string list \<Rightarrow> bool \<Rightarrow> (string \<rightharpoonup> bool) \<Rightarrow> (string \<rightharpoonup> bool)" where
  "mark_all [] success results = results"
| "mark_all (interface # batch) success results =
     mark_all batch success (results(interface \<mapsto> success))"

text \<open>
  The loop over the batches. A batch whose range list is empty sends nothing and
  records nothing. \<^verbatim>\<open>_send_config_command_safe\<close> returns a boolean on every path, so
  the inner \<^verbatim>\<open>except\<close> of the source is never entered.
\<close>

fun process_batches ::
  "'ch channel_ops \<Rightarrow> action \<Rightarrow> string list list \<Rightarrow> (string \<rightharpoonup> bool) \<Rightarrow> 'ch
     \<Rightarrow> (string \<rightharpoonup> bool) \<times> 'ch" where
  "process_batches ops a [] results ch = (results, ch)"
| "process_batches ops a (batch # batches) results ch =
     (let ranges = create_interface_ranges batch in
      if ranges \<noteq> [] then
        (case send_config_command_safe ops ch
                [''interface range '' @ join '','' ranges, action_command a] of
           (success, ch1) \<Rightarrow> process_batches ops a batches (mark_all batch success results) ch1)
      else process_batches ops a batches results ch)"

definition bulk_interfaces_optimized ::
  "'ch channel_ops \<Rightarrow> action \<Rightarrow> string list \<Rightarrow> int \<Rightarrow> 'ch \<Rightarrow> (string \<rightharpoonup> bool) \<times> 'ch" where
  "bulk_interfaces_optimized ops a interfaces max_batch_size ch =
     (if interfaces = [] then (Map.empty, ch)
      else
        (case make_batches max_batch_size interfaces of
           None \<Rightarrow> (mark_all interfaces False Map.empty, ch)
         | Some batches \<Rightarrow> process_batches ops a batches Map.empty ch))"

definition bulk_disable_interfaces_optimized ::
  "'ch channel_ops \<Rightarrow> string list \<Rightarrow> int \<Rightarrow> 'ch \<Rightarrow> (string \<rightharpoonup> bool) \<times> 'ch" where
  "bulk_disable_interfaces_optimized ops = bulk_interfaces_optimized ops Disable"

definition bulk_enable_interfaces_optimized ::
  "'ch channel_ops \<Rightarrow> string list \<Rightarrow> int \<Rightarrow> 'ch \<Rightarrow> (string \<rightharpoonup> bool) \<times> 'ch" where
  "bulk_enable_interfaces_optimized ops = bulk_interfaces_optimized ops Enable"

section \<open>The cache: \<^verbatim>\<open>cache_manager.ThreadSafeCache\<close>\<close>

text \<open>
  \<^verbatim>\<open>pickle\<close>, \<^verbatim>\<open>zlib\<close> and \<^verbatim>\<open>hashlib\<close> are libraries, not code of the
  repository: they are parameters of the model. \<open>None\<close> stands for a raised exception.
  Bytes are character lists. \<^verbatim>\<open>_compress_data\<close> calls \<^verbatim>\<open>pickle.dumps\<close> in its
  \<^verbatim>\<open>try\<close> body and once more in its \<^verbatim>\<open>except\<close> handler; pickling runs code of the
  value, so the second call need not end as the first did, and the two calls are two
  parameters.
\<close>

type_synonym bytes = string

record 'v pylib =
  pickle_dumps :: "'v \<Rightarrow> bytes option"
  pickle_dumps_retry :: "'v \<Rightarrow> bytes option"
  pickle_loads :: "bytes \<Rightarrow> 'v option"
  zlib_compress :: "bytes \<Rightarrow> bytes option"
  zlib_decompress :: "bytes \<Rightarrow> bytes option"
  md5_hexdigest :: "string \<Rightarrow> string"

text \<open>
  Python's \<^verbatim>\<open>float\<close> is the IEEE double: a number \<open>m * 2 ^ e\<close> with an integer
  \<open>m\<close> of at most 53 bits and \<open>e\<close> not below -1074. Every arithmetic operation
  returns the double nearest to the exact result, a tie going to the even \<open>m\<close>.
  Results beyond the largest double (infinities, \<^verbatim>\<open>OverflowError\<close>) are outside the
  model.

  \<open>round_half_even\<close> is the nearest integer with ties to even, \<open>pow2\<close> a power of
  two with an integer exponent, and \<open>float_log2 x\<close> the exponent \<open>k\<close> with
  \<open>2 ^ k \<le> x < 2 ^ (k + 1)\<close> for a positive \<open>x\<close>.
\<close>

definition round_half_even :: "real \<Rightarrow> int" where
  "round_half_even x =
     (let f = \<lfloor>x\<rfloor>; d = x - of_int f
      in if d < 1 / 2 then f else if d > 1 / 2 then f + 1 else if even f then f else f + 1)"

definition pow2 :: "int \<Rightarrow> real" where
  "pow2 e = (if 0 \<le> e then 2 ^ nat e else 1 / 2 ^ nat (- e))"

function float_log2 :: "real \<Rightarrow> int" where
  "float_log2 x =
     (if x \<le> 0 then 0
      else if 2 \<le> x then float_log2 (x / 2) + 1
      else if x < 1 then float_log2 (x * 2) - 1
      else 0)"
  by pat_completeness auto
termination
proof (relation "measure (\<lambda>x. nat \<bar>\<lfloor>log 2 x\<rfloor>\<bar>)")
  show "wf (measure (\<lambda>x. nat \<bar>\<lfloor>log 2 x\<rfloor>\<bar>))" by simp
next
  fix x :: real
  assume "\<not> x \<le> 0" and large: "2 \<le> x"
  then have "log 2 (x / 2) = log 2 x - 1" by (simp add: log_divide)
  moreover have "1 \<le> log 2 x" using large by (simp add: le_log_iff)
  then have "1 \<le> \<lfloor>log 2 x\<rfloor>" by linarith
  ultimately show "(x / 2, x) \<in> measure (\<lambda>x. nat \<bar>\<lfloor>log 2 x\<rfloor>\<bar>)" by simp
next
  fix x :: real
  assume pos: "\<not> x \<le> 0" and "\<not> 2 \<le> x" and small: "x < 1"
  then have "log 2 (x * 2) = log 2 x + 1" by (simp add: log_mult)
  moreover have "log 2 x < 0" using pos small by simp
  then have "\<lfloor>log 2 x\<rfloor> \<le> - 1" by linarith
  ultimately show "(x * 2, x) \<in> measure (\<lambda>x. nat \<bar>\<lfloor>log 2 x\<rfloor>\<bar>)" by simp
qed

declare float_log2.simps [simp del]

text \<open>The double nearest to a real number.\<close>

definition float_round :: "real \<Rightarrow> real" where
  "float_round x =
     (if x = 0 then 0
      else (let e = max (- 1074) (float_log2 \<bar>x\<bar> - 52)
            in real_of_int (round_half_even (x / pow2 e)) * pow2 e))"

text \<open>
  \<^verbatim>\<open>a - b\<close> and \<^verbatim>\<open>a * b\<close> on floats, and \<^verbatim>\<open>m / n\<close> on integers with a
  divisor that is not zero.
\<close>

definition float_sub :: "real \<Rightarrow> real \<Rightarrow> real" where
  "float_sub a b = float_round (a - b)"

definition float_mul :: "real \<Rightarrow> real \<Rightarrow> real" where
  "float_mul a b = float_round (a * b)"

definition int_true_div :: "int \<Rightarrow> int \<Rightarrow> real" where
  "int_true_div m n = float_round (real_of_int m / real_of_int n)"

text \<open>
  \<^verbatim>\<open>CacheEntry\<close>. A reading of the clock \<^verbatim>\<open>time.time()\<close> is a double; every
  function that reads the clock takes the reading as its argument \<open>now\<close>.
\<close>

record cache_entry =
  data :: bytes
  timestamp :: real
  ttl :: int
  access_count :: nat
  compressed :: bool


definition is_expired :: "real \<Rightarrow> cache_entry \<Rightarrow> bool" where
  "is_expired now entry \<longleftrightarrow> float_sub now (timestamp entry) > real_of_int (ttl entry)"

record cache_stats =
  hits :: nat
  misses :: nat
  evictions :: nat
  compressions :: nat
  total_requests :: nat

text \<open>
  \<^verbatim>\<open>ThreadSafeCache\<close>. The \<^verbatim>\<open>OrderedDict\<close> is an association list in its
  iteration order: the head is the least recently used entry, the last element the
  newest. All methods run under the cache's lock, so each is one atomic step.
\<close>

record thread_safe_cache =
  max_size :: int
  default_ttl :: int
  compress_threshold :: int
  cache :: "(string \<times> cache_entry) list"
  stats :: cache_stats

definition generate_key :: "'v pylib \<Rightarrow> string list \<Rightarrow> string" where
  "generate_key lib key_parts = md5_hexdigest lib (join ''|'' key_parts)"

text \<open>\<^verbatim>\<open>del self.cache[key]\<close> and \<^verbatim>\<open>self.cache.move_to_end(key)\<close>\<close>

definition del_key :: "string \<Rightarrow> (string \<times> cache_entry) list \<Rightarrow> (string \<times> cache_entry) list" where
  "del_key key es = filter (\<lambda>ke. fst ke \<noteq> key) es"

definition move_to_end :: "string \<Rightarrow> cache_entry \<Rightarrow> (string \<times> cache_entry) list \<Rightarrow> (string \<times> cache_entry) list" where
  "move_to_end key entry es = del_key key es @ [(key, entry)]"

text \<open>
  \<^verbatim>\<open>_compress_data\<close>. The test \<^verbatim>\<open>len(compressed) < len(serialized) * 0.9\<close> is
  written on integers. An exception of \<^verbatim>\<open>pickle.dumps\<close> or of \<^verbatim>\<open>zlib.compress\<close>
  in the \<^verbatim>\<open>try\<close> body leads to the \<^verbatim>\<open>except\<close> handler, which serializes again
  and returns the bytes uncompressed; the function raises (\<open>None\<close>) exactly when
  that second \<^verbatim>\<open>pickle.dumps\<close> does.
\<close>

definition compress_data :: "'v pylib \<Rightarrow> int \<Rightarrow> 'v \<Rightarrow> (bytes \<times> bool) option" where
  "compress_data lib threshold v =
     (let fallback = map_option (\<lambda>s. (s, False)) (pickle_dumps_retry lib v) in
      case pickle_dumps lib v of
        None \<Rightarrow> fallback
      | Some serialized \<Rightarrow>
          if int (length serialized) > threshold then
            (case zlib_compress lib serialized of
               None \<Rightarrow> fallback
             | Some c \<Rightarrow>
                 if 10 * length c < 9 * length serialized then Some (c, True)
                 else Some (serialized, False))
          else Some (serialized, False))"

text \<open>\<^verbatim>\<open>_decompress_data\<close>; \<open>None\<close> when it raises.\<close>

definition decompress_data :: "'v pylib \<Rightarrow> bytes \<Rightarrow> bool \<Rightarrow> 'v option" where
  "decompress_data lib d is_compressed =
     (if is_compressed then
        (case zlib_decompress lib d of
           None \<Rightarrow> None
         | Some decompressed \<Rightarrow> pickle_loads lib decompressed)
      else pickle_loads lib d)"

text \<open>
  \<^verbatim>\<open>ThreadSafeCache.get\<close>. The result \<open>None\<close> means that the method returned
  its \<^verbatim>\<open>default\<close> argument.
\<close>

definition cache_get ::
  "'v pylib \<Rightarrow> string list \<Rightarrow> real \<Rightarrow> thread_safe_cache \<Rightarrow> 'v option \<times> thread_safe_cache" where
  "cache_get lib key_parts now c =
     (let key = generate_key lib key_parts;
          st = (stats c)\<lparr>total_requests := total_requests (stats c) + 1\<rparr>
      in case map_of (cache c) key of
           None \<Rightarrow> (None, c\<lparr>stats := st\<lparr>misses := misses st + 1\<rparr>\<rparr>)
         | Some entry \<Rightarrow>
             if is_expired now entry then
               (None, c\<lparr>cache := del_key key (cache c), stats := st\<lparr>misses := misses st + 1\<rparr>\<rparr>)
             else
               (let entry1 = entry\<lparr>access_count := access_count entry + 1\<rparr>;
                    es1 = move_to_end key entry1 (cache c);
                    st1 = st\<lparr>hits := hits st + 1\<rparr>
                in case decompress_data lib (data entry1) (compressed entry1) of
                     Some v \<Rightarrow> (Some v, c\<lparr>cache := es1, stats := st1\<rparr>)
                   | None \<Rightarrow>
                       (None, c\<lparr>cache := del_key key es1,
                                stats := st1\<lparr>misses := misses st1 + 1\<rparr>\<rparr>)))"

text \<open>
  The eviction loop of \<^verbatim>\<open>set\<close>:
  \<^verbatim>\<open>while len(self.cache) > self.max_size: del self.cache[next(iter(self.cache))]\<close>.
  With a negative \<^verbatim>\<open>max_size\<close> the loop reaches the empty dict, where
  \<^verbatim>\<open>next\<close> raises \<^verbatim>\<open>StopIteration\<close>: the first component is \<open>True\<close> then.
\<close>

fun evict :: "int \<Rightarrow> (string \<times> cache_entry) list \<Rightarrow> nat \<Rightarrow> bool \<times> (string \<times> cache_entry) list \<times> nat" where
  "evict limit [] evicted = (0 > limit, [], evicted)"
| "evict limit (oldest # es) evicted =
     (if int (length (oldest # es)) > limit then evict limit es (evicted + 1)
      else (False, oldest # es, evicted))"

text \<open>\<^verbatim>\<open>ttl = ttl or self.default_ttl\<close>: an omitted or zero ttl means the default.\<close>

definition effective_ttl :: "thread_safe_cache \<Rightarrow> int option \<Rightarrow> int" where
  "effective_ttl c t = (case t of None \<Rightarrow> default_ttl c | Some n \<Rightarrow> if n = 0 then default_ttl c else n)"

text \<open>
  \<^verbatim>\<open>ThreadSafeCache.set\<close>. The first component of the result tells whether the call
  raised (the \<^verbatim>\<open>StopIteration\<close> of the eviction loop); a serialization failure is
  caught and the method returns normally.
\<close>

definition cache_set ::
  "'v pylib \<Rightarrow> string list \<Rightarrow> 'v \<Rightarrow> int option \<Rightarrow> real \<Rightarrow> thread_safe_cache \<Rightarrow> bool \<times> thread_safe_cache" where
  "cache_set lib key_parts v t now c =
     (let key = generate_key lib key_parts;
          ttl1 = effective_ttl c t
      in case compress_data lib (compress_threshold c) v of
           None \<Rightarrow> (False, c)
         | Some (d, is_compressed) \<Rightarrow>
             (let st = (if is_compressed
                        then (stats c)\<lparr>compressions := compressions (stats c) + 1\<rparr>
                        else stats c);
                  entry = \<lparr>data = d, timestamp = now, ttl = ttl1, access_count = 0,
                           compressed = is_compressed\<rparr>;
                  es = del_key key (cache c) @ [(key, entry)]
              in case evict (max_size c) es (evictions st) of
                   (raised, es1, evicted) \<Rightarrow>
                     (raised, c\<lparr>cache := es1, stats := st\<lparr>evictions := evicted\<rparr>\<rparr>)))"

text \<open>\<^verbatim>\<open>ThreadSafeCache.invalidate\<close>\<close>

definition cache_invalidate :: "'v pylib \<Rightarrow> string list \<Rightarrow> thread_safe_cache \<Rightarrow> bool \<times> thread_safe_cache" where
  "cache_invalidate lib key_parts c =
     (let key = generate_key lib key_parts
      in if map_of (cache c) key \<noteq> None then (True, c\<lparr>cache := del_key key (cache c)\<rparr>)
         else (False, c))"

text \<open>\<^verbatim>\<open>ThreadSafeCache.clear\<close>\<close>

definition cache_clear :: "thread_safe_cache \<Rightarrow> thread_safe_cache" where
  "cache_clear c =
     c\<lparr>cache := [],
       stats := \<lparr>hits = 0, misses = 0, evictions = 0, compressions = 0, total_requests = 0\<rparr>\<rparr>"

text \<open>
  \<^verbatim>\<open>round(x, 2)\<close> on a float: the exact value of \<open>x\<close> is rounded to the nearest
  hundredth, a tie going to the even neighbour, and the result is the double nearest to
  that decimal.
\<close>

definition py_round2 :: "real \<Rightarrow> real" where
  "py_round2 x = float_round (real_of_int (round_half_even (x * 100)) / 100)"

text \<open>\<^verbatim>\<open>ThreadSafeCache.get_stats\<close>: the dict it returns, as a record.\<close>

record stats_report =
  r_hits :: nat
  r_misses :: nat
  r_evictions :: nat
  r_compressions :: nat
  r_total_requests :: nat
  r_hit_rate :: real
  r_size :: nat
  r_max_size :: int
  r_memory_usage :: nat

definition get_stats :: "thread_safe_cache \<Rightarrow> stats_report" where
  "get_stats c =
     (let hit_rate = float_mul
            (int_true_div (int (hits (stats c))) (int (max 1 (total_requests (stats c))))) 100
      in \<lparr>r_hits = hits (stats c),
          r_misses = misses (stats c),
          r_evictions = evictions (stats c),
          r_compressions = compressions (stats c),
          r_total_requests = total_requests (stats c),
          r_hit_rate = py_round2 hit_rate,
          r_size = length (cache c),
          r_max_size = max_size c,
          r_memory_usage = sum_list (map (\<lambda>ke. length (data (snd ke))) (cache c))\<rparr>)"

section \<open>The command executor: \<^verbatim>\<open>CiscoManager.send_command\<close>\<close>





record perf_stats =
  commands_executed :: nat
  cache_hits :: nat
  cache_misses :: nat
  errors :: nat

text \<open>
  The manager: the fields that \<^verbatim>\<open>send_command\<close> reads and writes.
\<close>

record 'ch manager =
  connected :: bool
  connection :: 'ch
  mgr_stats :: perf_stats




section \<open>The raw-dump parser: \<^verbatim>\<open>CiscoParser.parse_basic_interfaces\<close>\<close>

text \<open>
  The regular expression \<^verbatim>\<open>^[A-Za-z]+\d+/\d+/\d+\s+is\s+\<close> under \<^verbatim>\<open>re.match\<close>.
  Each repeated class is followed by a character outside it, so reading every class
  greedily is the whole search. \<open>some_of p\<close> reads one or more characters satisfying
  \<open>p\<close>, \<open>literal\<close> a fixed text; both return the rest of the line.
\<close>

definition some_of :: "(char \<Rightarrow> bool) \<Rightarrow> string \<Rightarrow> string option" where
  "some_of p s = (case s of [] \<Rightarrow> None | c # cs \<Rightarrow> if p c then Some (dropWhile p cs) else None)"

definition literal :: "string \<Rightarrow> string \<Rightarrow> string option" where
  "literal t s = (if startswith s t then Some (drop (length t) s) else None)"

definition generic_pattern :: "string \<Rightarrow> bool" where
  "generic_pattern line =
     (Option.bind (Option.bind (Option.bind (Option.bind (Option.bind (Option.bind
        (Option.bind (Option.bind (some_of is_alpha line)
          (some_of is_digit)) (literal ''/'')) (some_of is_digit)) (literal ''/''))
          (some_of is_digit)) (some_of is_space)) (literal ''is'')) (some_of is_space) \<noteq> None)"

text \<open>\<^verbatim>\<open>any(interface_patterns)\<close>\<close>

definition interface_line :: "string \<Rightarrow> bool" where
  "interface_line line \<longleftrightarrow>
     startswith line ''GigabitEthernet'' \<or> startswith line ''FastEthernet'' \<or>
     startswith line ''TenGigabitEthernet'' \<or> startswith line ''Ethernet'' \<or>
     generic_pattern line"

text \<open>The \<^verbatim>\<open>if\<close>/\<^verbatim>\<open>elif\<close> chain on \<^verbatim>\<open>line_lower\<close>, in the source's order.\<close>

definition basic_status :: "string \<Rightarrow> string" where
  "basic_status line_lower =
     (if contains line_lower ''is up'' \<and> contains line_lower ''line protocol is up'' then ''connected''
      else if contains line_lower ''is up'' then ''up''
      else if contains line_lower ''notconnect'' then ''notconnect''
      else if contains line_lower ''is down'' then ''down''
      else if contains line_lower ''administratively down'' then ''disabled''
      else ''unknown'')"

record interface_info =
  status :: string
  vlan :: string
  duplex :: string
  speed :: string
  port_type :: string
  description :: string
  raw_line :: string

text \<open>One line of the loop: the dict entry it writes, if any.\<close>

definition parse_basic_line :: "string \<Rightarrow> (string \<times> interface_info) option" where
  "parse_basic_line raw =
     (let line = strip raw in
      if interface_line line then
        (let parts = split_ws line in
         if length parts \<ge> 3 then
           Some (parts ! 0,
                 \<lparr>status = basic_status (lower line), vlan = ''unknown'', duplex = ''unknown'',
                  speed = ''unknown'', port_type = ''Ethernet'', description = [],
                  raw_line = line\<rparr>)
         else None)
      else None)"

fun parse_basic_lines :: "string list \<Rightarrow> (string \<rightharpoonup> interface_info) \<Rightarrow> (string \<rightharpoonup> interface_info)" where
  "parse_basic_lines [] interfaces = interfaces"
| "parse_basic_lines (line # lines) interfaces =
     (case parse_basic_line line of
        None \<Rightarrow> parse_basic_lines lines interfaces
      | Some (interface, info) \<Rightarrow> parse_basic_lines lines (interfaces(interface \<mapsto> info)))"

definition parse_basic_interfaces :: "string \<Rightarrow> (string \<rightharpoonup> interface_info)" where
  "parse_basic_interfaces output = parse_basic_lines (split_chr (CHR 0x0A) output) Map.empty"

section \<open>Concrete instances for running the model\<close>

text \<open>\<^verbatim>\<open>ThreadSafeCache.__init__\<close>: an empty cache with zeroed counters.\<close>

definition init_cache :: "int \<Rightarrow> int \<Rightarrow> int \<Rightarrow> thread_safe_cache" where
  "init_cache size_limit ttl0 threshold =
     \<lparr>max_size = size_limit, default_ttl = ttl0, compress_threshold = threshold, cache = [],
      stats = \<lparr>hits = 0, misses = 0, evictions = 0, compressions = 0, total_requests = 0\<rparr>\<rparr>"

text \<open>
  A stand-in for the libraries on string values: serialization puts a tag in front of
  the text and fails on one value, deserialization accepts tagged bytes only,
  compression saves nothing, and the digest of a key is the key text itself.
\<close>

definition demo_lib :: "string pylib" where
  "demo_lib =
     \<lparr>pickle_dumps = (\<lambda>v. if v = ''<unpicklable>'' then None else Some (CHR ''S'' # v)),
      pickle_dumps_retry = (\<lambda>v. if v = ''<unpicklable>'' then None else Some (CHR ''S'' # v)),
      pickle_loads = (\<lambda>b. case b of [] \<Rightarrow> None | c # v \<Rightarrow> if c = CHR ''S'' then Some v else None),
      zlib_compress = (\<lambda>b. Some b),
      zlib_decompress = (\<lambda>b. Some b),
      md5_hexdigest = (\<lambda>s. s)\<rparr>"



text \<open>The same libraries for values that serialize but cannot be loaded again.\<close>

definition failing_loads :: "string pylib" where
  "failing_loads = demo_lib\<lparr>pickle_loads := (\<lambda>b. None)\<rparr>"

text \<open>
  A cache of capacity two that holds two entries: \<^verbatim>\<open>A\<close> was stored first and is the
  least recently used one, \<^verbatim>\<open>B\<close> is the newest.
\<close>

definition two_slot_cache :: thread_safe_cache where
  "two_slot_cache =
     snd (cache_set demo_lib [''B''] ''b'' None 1
       (snd (cache_set demo_lib [''A''] ''a'' None 0 (init_cache 2 300 1024))))"

text \<open>A cache of capacity one that holds the entry \<^verbatim>\<open>A\<close>.\<close>

definition one_slot_cache :: thread_safe_cache where
  "one_slot_cache = snd (cache_set demo_lib [''A''] ''a'' None 0 (init_cache 1 300 1024))"




section \<open>Properties of the range compressor\<close>

lemma create_port_ranges_loop_runs:
  "create_port_ranges_loop slot ports ranges cur =
     ranges @ map (\<lambda>r. range_str slot (fst r) (snd r)) (port_runs_loop ports cur)"
  by (induction ports arbitrary: ranges cur) (auto split: option.splits)

lemma create_port_ranges_runs:
  "create_port_ranges slot ports = map (\<lambda>r. range_str slot (fst r) (snd r)) (port_runs ports)"
  by (simp add: create_port_ranges_def port_runs_def create_port_ranges_loop_runs)

lemma expand_range_pair [simp]: "expand_range (s, e) = [s..e]"
  by (simp add: expand_range_def)

lemma port_runs_loop_expand:
  "s \<le> e \<Longrightarrow> concat (map expand_range (port_runs_loop ports (Some (s, e)))) = [s..e] @ ports"
proof (induction ports arbitrary: s e)
  case Nil
  then show ?case by simp
next
  case (Cons p ports)
  show ?case
  proof (cases "p = e + 1")
    case True
    have "s \<le> p" using Cons.prems True by simp
    from Cons.IH [OF this] have
      "concat (map expand_range (port_runs_loop ports (Some (s, p)))) = [s..p] @ ports" .
    moreover have "[s..p] = [s..e] @ [p]"
      using Cons.prems True by (simp add: upto_rec2)
    ultimately show ?thesis using True by simp
  next
    case False
    have "concat (map expand_range (port_runs_loop ports (Some (p, p)))) = [p..p] @ ports"
      by (rule Cons.IH) simp
    then show ?thesis using False by simp
  qed
qed

lemma port_runs_expand: "concat (map expand_range (port_runs ports)) = ports"
proof (cases ports)
  case Nil
  then show ?thesis by (simp add: port_runs_def)
next
  case (Cons p ps)
  then show ?thesis
    using port_runs_loop_expand [of p p ps] by (simp add: port_runs_def)
qed

lemma port_runs_loop_ordered:
  "s \<le> e \<Longrightarrow> r \<in> set (port_runs_loop ports (Some (s, e))) \<Longrightarrow> fst r \<le> snd r"
proof (induction ports arbitrary: s e)
  case Nil
  then show ?case by auto
next
  case (Cons p ports)
  show ?case
  proof (cases "p = e + 1")
    case True
    with Cons.prems have "r \<in> set (port_runs_loop ports (Some (s, p)))" "s \<le> p" by auto
    then show ?thesis using Cons.IH by blast
  next
    case False
    with Cons.prems have "r = (s, e) \<or> r \<in> set (port_runs_loop ports (Some (p, p)))" by auto
    then show ?thesis using Cons.IH [of p p] Cons.prems(1) by auto
  qed
qed

lemma port_runs_ordered: "r \<in> set (port_runs ports) \<Longrightarrow> fst r \<le> snd r"
proof (cases ports)
  case Nil
  assume "r \<in> set (port_runs ports)"
  with Nil show ?thesis by (simp add: port_runs_def)
next
  case (Cons p ps)
  assume "r \<in> set (port_runs ports)"
  with Cons show ?thesis
    using port_runs_loop_ordered [of p p r ps] by (simp add: port_runs_def)
qed

lemma port_runs_loop_starts:
  "r \<in> set (port_runs_loop ports (Some (s, e))) \<Longrightarrow> fst r = s \<or> fst r \<in> set ports"
  by (induction ports arbitrary: s e) (auto split: if_splits)

lemma port_runs_loop_gap:
  "sorted_wrt (<) (e # ports) \<Longrightarrow> sorted_wrt range_gap (port_runs_loop ports (Some (s, e)))"
proof (induction ports arbitrary: s e)
  case Nil
  then show ?case by simp
next
  case (Cons p ports)
  from Cons.prems have ep: "e < p" and above: "\<forall>q\<in>set ports. p < q"
    and rest: "sorted_wrt (<) (p # ports)" by auto
  show ?case
  proof (cases "p = e + 1")
    case True
    then show ?thesis using Cons.IH [OF rest] by simp
  next
    case False
    have far: "range_gap (s, e) r" if "r \<in> set (port_runs_loop ports (Some (p, p)))" for r
    proof -
      from port_runs_loop_starts [OF that] have "fst r = p \<or> fst r \<in> set ports" .
      then have "p \<le> fst r" using above by auto
      then show ?thesis using ep False by (simp add: range_gap_def)
    qed
    show ?thesis using False far Cons.IH [OF rest] by simp
  qed
qed

lemma port_runs_gap: "sorted_wrt (<) ports \<Longrightarrow> sorted_wrt range_gap (port_runs ports)"
proof (cases ports)
  case Nil
  then show ?thesis by (simp add: port_runs_def)
next
  case (Cons p ps)
  assume "sorted_wrt (<) ports"
  with Cons show ?thesis
    using port_runs_loop_gap [of p ps p] by (simp add: port_runs_def)
qed

lemma port_runs_isolated:
  assumes "p \<in> set ports" and "p - 1 \<notin> set ports" and "p + 1 \<notin> set ports"
  shows "(p, p) \<in> set (port_runs ports)"
proof -
  have "p \<in> set (concat (map expand_range (port_runs ports)))"
    using assms(1) by (simp add: port_runs_expand)
  then obtain r where r: "r \<in> set (port_runs ports)" and pr: "fst r \<le> p" "p \<le> snd r"
    by (auto simp: expand_range_def)
  have sub: "set (expand_range r) \<subseteq> set ports"
  proof -
    have "set (expand_range r) \<subseteq> set (concat (map expand_range (port_runs ports)))"
      using r by auto
    then show ?thesis by (simp add: port_runs_expand)
  qed
  have "fst r = p"
  proof (rule ccontr)
    assume "fst r \<noteq> p"
    with pr have "p - 1 \<in> set (expand_range r)" by (simp add: expand_range_def)
    with sub assms(2) show False by blast
  qed
  moreover have "snd r = p"
  proof (rule ccontr)
    assume "snd r \<noteq> p"
    with pr have "p + 1 \<in> set (expand_range r)" by (simp add: expand_range_def)
    with sub assms(3) show False by blast
  qed
  ultimately have "r = (p, p)" by (simp add: prod_eq_iff)
  with r show ?thesis by simp
qed

text \<open>
  Claim C1. \<^verbatim>\<open>_create_interface_ranges\<close> sorts the ports of one slot prefix and hands
  them to \<^verbatim>\<open>_create_port_ranges\<close>; for identifiers that all fall into one group
  this is its whole result. For every list of distinct port numbers, the strings
  returned are the renderings of ranges (start, end) such that: expanding the ranges in
  order gives back the sorted input, so the ranges cover exactly the input set, without
  gaps and without duplicates; every range has start at most end; any two ranges are
  separated by at least one missing port, so they neither overlap nor touch; and a port
  with no neighbour in the input is a range with start equal to end.
\<close>

theorem create_port_ranges_cover_maximal:
  "distinct ports \<Longrightarrow>
     (let runs = port_runs (sort ports) in
        (group_interfaces [] interfaces = Some [(slot, ports)] \<longrightarrow>
           create_interface_ranges interfaces = create_port_ranges slot (sort ports)) \<and>
        create_port_ranges slot (sort ports) = map (\<lambda>r. range_str slot (fst r) (snd r)) runs \<and>
        concat (map expand_range runs) = sort ports \<and>
        set (concat (map expand_range runs)) = set ports \<and>
        distinct (concat (map expand_range runs)) \<and>
        (\<forall>r\<in>set runs. fst r \<le> snd r) \<and>
        sorted_wrt range_gap runs \<and>
        (\<forall>p\<in>set ports. p - 1 \<notin> set ports \<and> p + 1 \<notin> set ports \<longrightarrow> (p, p) \<in> set runs))"
proof -
  assume d: "distinct ports"
  have strict: "sorted_wrt (<) (sort ports)"
    using d by (simp add: strict_sorted_iff)
  have iso: "(p, p) \<in> set (port_runs (sort ports))"
    if "p \<in> set ports" "p - 1 \<notin> set ports" "p + 1 \<notin> set ports" for p
    using that port_runs_isolated [of p "sort ports"] by simp
  have one_group: "create_interface_ranges interfaces = create_port_ranges slot (sort ports)"
    if "group_interfaces [] interfaces = Some [(slot, ports)]"
    using that by (simp add: create_interface_ranges_def)
  show ?thesis
    unfolding Let_def
    using d iso one_group
    by (simp add: create_port_ranges_runs port_runs_expand port_runs_ordered
        port_runs_gap [OF strict])
qed

theorem create_port_ranges_cover_maximal_witness:
  "distinct [3, 1, 2, 8, 5, 6 :: int] \<and>
   group_interfaces []
     [''Gi1/0/3'', ''Gi1/0/1'', ''Gi1/0/2'', ''Gi1/0/8'', ''Gi1/0/5'', ''Gi1/0/6'']
     = Some [(''1/0'', [3, 1, 2, 8, 5, 6])] \<and>
   create_interface_ranges
     [''Gi1/0/3'', ''Gi1/0/1'', ''Gi1/0/2'', ''Gi1/0/8'', ''Gi1/0/5'', ''Gi1/0/6'']
     = [''gi1/0/1-3'', ''gi1/0/5-6'', ''gi1/0/8''] \<and>
   port_runs (sort [3, 1, 2, 8, 5, 6]) = [(1, 3), (5, 6), (8, 8)] \<and>
   concat (map expand_range (port_runs (sort [3, 1, 2, 8, 5, 6]))) = sort [3, 1, 2, 8, 5, 6] \<and>
   sorted_wrt range_gap (port_runs (sort [3, 1, 2, 8, 5, 6])) \<and>
   (8, 8) \<in> set (port_runs (sort [3, 1, 2, 8, 5, 6]))"
proof -
  have d: "distinct [3, 1, 2, 8, 5, 6 :: int]" by simp
  have g: "group_interfaces []
     [''Gi1/0/3'', ''Gi1/0/1'', ''Gi1/0/2'', ''Gi1/0/8'', ''Gi1/0/5'', ''Gi1/0/6'']
     = Some [(''1/0'', [3, 1, 2, 8, 5, 6])]"
    by code_simp
  have strs: "create_port_ranges ''1/0'' (sort [3, 1, 2, 8, 5, 6]) =
      [''gi1/0/1-3'', ''gi1/0/5-6'', ''gi1/0/8'']"
    by code_simp
  have runs: "port_runs (sort [3, 1, 2, 8, 5, 6]) = [(1, 3), (5, 6), (8, 8)]"
    by code_simp
  note inst = create_port_ranges_cover_maximal [OF d, of
      "[''Gi1/0/3'', ''Gi1/0/1'', ''Gi1/0/2'', ''Gi1/0/8'', ''Gi1/0/5'', ''Gi1/0/6'']" "''1/0''"]
  from inst g have whole: "create_interface_ranges
     [''Gi1/0/3'', ''Gi1/0/1'', ''Gi1/0/2'', ''Gi1/0/8'', ''Gi1/0/5'', ''Gi1/0/6'']
     = create_port_ranges ''1/0'' (sort [3, 1, 2, 8, 5, 6])"
    unfolding Let_def by blast
  from inst have cover:
      "concat (map expand_range (port_runs (sort [3, 1, 2, 8, 5, 6]))) = sort [3, 1, 2, 8, 5, 6]"
    and gaps: "sorted_wrt range_gap (port_runs (sort [3, 1, 2, 8, 5, 6]))"
    and iso: "\<forall>p\<in>set [3, 1, 2, 8, 5, 6 :: int].
           p - 1 \<notin> set [3, 1, 2, 8, 5, 6] \<and> p + 1 \<notin> set [3, 1, 2, 8, 5, 6]
           \<longrightarrow> (p, p) \<in> set (port_runs (sort [3, 1, 2, 8, 5, 6]))"
    unfolding Let_def by blast+
  from iso have single: "(8, 8) \<in> set (port_runs (sort [3, 1, 2, 8, 5, 6 :: int]))"
    by simp
  show ?thesis
    using d g whole strs runs cover gaps single by simp
qed

section \<open>Properties of the cache\<close>

lemma evict_nonneg:
  "0 \<le> limit \<Longrightarrow>
     evict limit es n = (False, drop (length es - nat limit) es, n + (length es - nat limit))"
proof (induction es arbitrary: n)
  case Nil
  then show ?case by simp
next
  case (Cons x es)
  show ?case
  proof (cases "int (length (x # es)) > limit")
    case True
    then have le: "nat limit \<le> length es" using Cons.prems by simp
    then have "Suc (length es) - nat limit = Suc (length es - nat limit)"
      by (rule Suc_diff_le)
    then show ?thesis using True Cons.IH [OF Cons.prems] by simp
  next
    case False
    then have "length (x # es) - nat limit = 0" by simp
    then show ?thesis using False by simp
  qed
qed

lemma del_key_absent: "key \<notin> fst ` set es \<Longrightarrow> del_key key es = es"
  by (induction es) (auto simp: del_key_def)


lemma del_key_other: "k \<noteq> key \<Longrightarrow> k \<in> fst ` set es \<Longrightarrow> k \<in> fst ` set (del_key key es)"
  by (force simp: del_key_def)

lemma del_key_length_distinct:
  "distinct (map fst es) \<Longrightarrow> key \<in> fst ` set es \<Longrightarrow> Suc (length (del_key key es)) = length es"
proof (induction es)
  case Nil
  then show ?case by simp
next
  case (Cons x es)
  show ?case
  proof (cases "fst x = key")
    case True
    with Cons.prems have "key \<notin> fst ` set es" by auto
    then have "del_key key es = es" by (rule del_key_absent)
    with True show ?thesis by (simp add: del_key_def)
  next
    case False
    with Cons.prems have "key \<in> fst ` set es" "distinct (map fst es)" by auto
    with Cons.IH have "Suc (length (del_key key es)) = length es" by simp
    with False show ?thesis by (simp add: del_key_def)
  qed
qed



text \<open>What \<open>cache_set\<close> does once the value is serialized and the limit is not negative.\<close>

lemma cache_set_stored:
  assumes "0 \<le> max_size c"
    and "compress_data lib (compress_threshold c) v = Some (d, z)"
  shows "cache_set lib k v t now c =
     (let key = generate_key lib k;
          st = (if z then (stats c)\<lparr>compressions := compressions (stats c) + 1\<rparr> else stats c);
          entry = \<lparr>data = d, timestamp = now, ttl = effective_ttl c t, access_count = 0,
                   compressed = z\<rparr>;
          es = del_key key (cache c) @ [(key, entry)];
          n = length es - nat (max_size c)
      in (False, c\<lparr>cache := drop n es, stats := st\<lparr>evictions := evictions st + n\<rparr>\<rparr>))"
  using assms by (simp add: cache_set_def Let_def evict_nonneg)


text \<open>\<open>pow2\<close> is the power of two, and \<open>float_log2\<close> finds the exponent of a positive number.\<close>

lemma pow2_powr: "pow2 k = 2 powr real_of_int k"
  by (simp add: pow2_def powr_int)

lemma pow2_Suc: "pow2 (k + 1) = 2 * pow2 k"
  by (simp add: pow2_powr powr_add)

lemma pow2_pred: "pow2 (k - 1) = pow2 k / 2"
  by (simp add: pow2_powr powr_diff)

lemma float_log2_bounds:
  "0 < x \<Longrightarrow> pow2 (float_log2 x) \<le> x \<and> x < pow2 (float_log2 x + 1)"
proof (induction x rule: float_log2.induct)
  case (1 x)
  show ?case
  proof (cases "2 \<le> x")
    case True
    then have eq: "float_log2 x = float_log2 (x / 2) + 1"
      using "1.prems" by (subst float_log2.simps) simp
    have "pow2 (float_log2 (x / 2)) \<le> x / 2 \<and> x / 2 < pow2 (float_log2 (x / 2) + 1)"
      using "1.IH"(1) True "1.prems" by simp
    then show ?thesis
      unfolding eq
      using pow2_Suc [of "float_log2 (x / 2)"] pow2_Suc [of "float_log2 (x / 2) + 1"]
      by linarith
  next
    case False
    show ?thesis
    proof (cases "x < 1")
      case True
      then have eq: "float_log2 x = float_log2 (x * 2) - 1"
        using "1.prems" False by (subst float_log2.simps) simp
      have "pow2 (float_log2 (x * 2)) \<le> x * 2 \<and> x * 2 < pow2 (float_log2 (x * 2) + 1)"
        using "1.IH"(2) True False "1.prems" by simp
      moreover have "float_log2 (x * 2) - 1 + 1 = float_log2 (x * 2)" by simp
      ultimately show ?thesis
        unfolding eq
        using pow2_pred [of "float_log2 (x * 2)"] pow2_Suc [of "float_log2 (x * 2)"]
        by (simp only:) linarith
    next
      case False
      then have "float_log2 x = 0"
        using "1.prems" \<open>\<not> 2 \<le> x\<close> by (subst float_log2.simps) simp
      then show ?thesis using False \<open>\<not> 2 \<le> x\<close> by (simp add: pow2_def)
    qed
  qed
qed
text \<open>
  Claim C10. \<^verbatim>\<open>clear()\<close> removes every entry and sets the five counters to zero;
  \<^verbatim>\<open>get_stats()\<close> right after it reports size 0, hit rate 0, zero counters and no
  memory in use, whatever the cache held and counted before.
\<close>

theorem cache_clear_resets:
  "cache (cache_clear c) = [] \<and>
   stats (cache_clear c) =
     \<lparr>hits = 0, misses = 0, evictions = 0, compressions = 0, total_requests = 0\<rparr> \<and>
   r_size (get_stats (cache_clear c)) = 0 \<and>
   r_hit_rate (get_stats (cache_clear c)) = 0 \<and>
   r_hits (get_stats (cache_clear c)) = 0 \<and>
   r_misses (get_stats (cache_clear c)) = 0 \<and>
   r_evictions (get_stats (cache_clear c)) = 0 \<and>
   r_compressions (get_stats (cache_clear c)) = 0 \<and>
   r_total_requests (get_stats (cache_clear c)) = 0 \<and>
   r_memory_usage (get_stats (cache_clear c)) = 0"
  by (simp add: cache_clear_def get_stats_def py_round2_def round_half_even_def float_mul_def
      int_true_div_def float_round_def)




text \<open>
  Claim C5 at a stored value that cannot be loaded again: the \<^verbatim>\<open>get\<close> returns the
  default, and the one request is counted both as a hit and as a miss, because
  \<^verbatim>\<open>hits\<close> is incremented before \<^verbatim>\<open>_decompress_data\<close> is tried.
\<close>

theorem get_corrupt_counts_hit_and_miss:
  "fst (cache_get failing_loads [''k''] 1
         (snd (cache_set failing_loads [''k''] ''v'' None 0 (init_cache 1000 300 1024)))) = None \<and>
   hits (stats (snd (cache_get failing_loads [''k''] 1
         (snd (cache_set failing_loads [''k''] ''v'' None 0 (init_cache 1000 300 1024)))))) = 1 \<and>
   misses (stats (snd (cache_get failing_loads [''k''] 1
         (snd (cache_set failing_loads [''k''] ''v'' None 0 (init_cache 1000 300 1024)))))) = 1 \<and>
   total_requests (stats (snd (cache_get failing_loads [''k''] 1
         (snd (cache_set failing_loads [''k''] ''v'' None 0 (init_cache 1000 300 1024)))))) = 1"
  by code_simp

text \<open>When \<^verbatim>\<open>_compress_data\<close> raises: exactly when the serialization in its
  \<^verbatim>\<open>except\<close> handler raises, after the first serialization or the compression did.
\<close>

lemma compress_data_raises_iff:
  "compress_data lib threshold v = None \<longleftrightarrow>
     pickle_dumps_retry lib v = None \<and>
     (pickle_dumps lib v = None \<or>
      (\<exists>s. pickle_dumps lib v = Some s \<and> int (length s) > threshold \<and> zlib_compress lib s = None))"
  by (auto simp: compress_data_def Let_def split: option.splits if_splits)



text \<open>What a hit of \<open>cache_get\<close> leaves behind.\<close>

lemma cache_get_hit:
  assumes "fst (cache_get lib a now c) = Some w"
  obtains e where "map_of (cache c) (generate_key lib a) = Some e"
    and "cache (snd (cache_get lib a now c)) =
           del_key (generate_key lib a) (cache c) @
             [(generate_key lib a, e\<lparr>access_count := access_count e + 1\<rparr>)]"
    and "max_size (snd (cache_get lib a now c)) = max_size c"
    and "compress_threshold (snd (cache_get lib a now c)) = compress_threshold c"
    and "evictions (stats (snd (cache_get lib a now c))) = evictions (stats c)"
    and "default_ttl (snd (cache_get lib a now c)) = default_ttl c"
proof (cases "map_of (cache c) (generate_key lib a)")
  case None
  with assms show ?thesis by (simp add: cache_get_def Let_def)
next
  case (Some e)
  with assms have live: "\<not> is_expired now e"
    by (auto simp: cache_get_def Let_def split: if_splits)
  with assms Some have "decompress_data lib (data e) (compressed e) \<noteq> None"
    by (auto simp: cache_get_def Let_def split: option.splits)
  then obtain w' where "decompress_data lib (data e) (compressed e) = Some w'" by blast
  with Some live have
    "cache (snd (cache_get lib a now c)) =
       del_key (generate_key lib a) (cache c) @
         [(generate_key lib a, e\<lparr>access_count := access_count e + 1\<rparr>)]"
    "max_size (snd (cache_get lib a now c)) = max_size c"
    "compress_threshold (snd (cache_get lib a now c)) = compress_threshold c"
    "evictions (stats (snd (cache_get lib a now c))) = evictions (stats c)"
    "default_ttl (snd (cache_get lib a now c)) = default_ttl c"
    by (simp_all add: cache_get_def Let_def move_to_end_def)
  with Some that show ?thesis by blast
qed

lemma drop_one_tl: "drop (Suc 0) xs = tl xs"
  by (simp add: drop_Suc)

text \<open>Inserting a new key into a full cache drops the head of the list, and nothing else.\<close>

lemma cache_set_full:
  assumes full: "int (length (cache c)) = max_size c"
    and fresh: "generate_key lib k \<notin> fst ` set (cache c)"
    and ser: "compress_data lib (compress_threshold c) v = Some (d, z)"
  shows "fst (cache_set lib k v t now c) = False"
    and "cache (snd (cache_set lib k v t now c)) =
           tl (cache c @ [(generate_key lib k,
                 \<lparr>data = d, timestamp = now, ttl = effective_ttl c t, access_count = 0,
                  compressed = z\<rparr>)])"
    and "evictions (stats (snd (cache_set lib k v t now c))) = evictions (stats c) + 1"
proof -
  have nonneg: "0 \<le> max_size c" using full by simp
  have len: "nat (max_size c) = length (cache c)" using full by simp
  show "fst (cache_set lib k v t now c) = False"
    unfolding cache_set_stored [OF nonneg ser] by (simp add: Let_def)
  show "cache (snd (cache_set lib k v t now c)) =
           tl (cache c @ [(generate_key lib k,
                 \<lparr>data = d, timestamp = now, ttl = effective_ttl c t, access_count = 0,
                  compressed = z\<rparr>)])"
    unfolding cache_set_stored [OF nonneg ser]
    by (simp add: Let_def del_key_absent [OF fresh] len drop_one_tl del: drop_append)
  show "evictions (stats (snd (cache_set lib k v t now c))) = evictions (stats c) + 1"
    unfolding cache_set_stored [OF nonneg ser]
    by (simp add: Let_def del_key_absent [OF fresh] len)
qed

lemma cache_set_bounded:
  assumes "0 \<le> max_size c" and "int (length (cache c)) \<le> max_size c"
  shows "int (length (cache (snd (cache_set lib k v t now c)))) \<le> max_size c"
proof (cases "compress_data lib (compress_threshold c) v")
  case None
  then show ?thesis using assms(2) by (simp add: cache_set_def)
next
  case (Some dz)
  then obtain d z where "compress_data lib (compress_threshold c) v = Some (d, z)"
    by (cases dz) auto
  from cache_set_stored [OF assms(1) this] show ?thesis
    using assms(1) by (simp add: Let_def)
qed

text \<open>
  Claim C4, as stated, fails for a cache of capacity one: the key that was just read is
  the only entry, hence also the least recently used one, and the insertion evicts it.
\<close>

theorem accessed_key_evicted_at_capacity_one:
  "int (length (cache one_slot_cache)) = max_size one_slot_cache \<and>
   fst (cache_get demo_lib [''A''] 1 one_slot_cache) = Some ''a'' \<and>
   map fst (cache (snd (cache_set demo_lib [''B''] ''b'' None 2
                     (snd (cache_get demo_lib [''A''] 1 one_slot_cache))))) = [''B'']"
  by code_simp

text \<open>
  Claim C4, amended. The list \<open>cache c\<close> is the recency order: its head is the least
  recently used entry, its last element the most recently used one.
  \<^item> A \<^verbatim>\<open>get\<close> that hits moves its entry to the end of the order, with its access
    count incremented, and leaves the other entries in their order.
  \<^item> In a cache that holds exactly \<^verbatim>\<open>max_size\<close> entries, a \<^verbatim>\<open>set\<close> of a key that is
    not in the cache, with a value that serializes, appends the new entry as the newest
    and evicts exactly the head, the least recently used entry; the eviction counter
    grows by one, for the one evicted entry.
  \<^item> After a \<^verbatim>\<open>set\<close> the size is at most \<^verbatim>\<open>max_size\<close>.
  \<^item> When the capacity is at least two, the keys are distinct and the insertion comes
    right after a \<^verbatim>\<open>get\<close> that hit a key, the cache afterwards is the old order
    without the read entry and without its head, followed by the read entry and the new
    one: the key that was read is preserved.
\<close>

theorem lru_eviction_on_full_cache:
  "(fst (cache_get lib a now0 c) = Some w \<and> map_of (cache c) (generate_key lib a) = Some e \<longrightarrow>
      cache (snd (cache_get lib a now0 c)) =
        del_key (generate_key lib a) (cache c) @
          [(generate_key lib a, e\<lparr>access_count := access_count e + 1\<rparr>)]) \<and>
   (int (length (cache c)) = max_size c \<and>
    generate_key lib k \<notin> fst ` set (cache c) \<and>
    compress_data lib (compress_threshold c) v = Some (d, z) \<longrightarrow>
      fst (cache_set lib k v t now c) = False \<and>
      cache (snd (cache_set lib k v t now c)) =
        tl (cache c @ [(generate_key lib k,
              \<lparr>data = d, timestamp = now, ttl = effective_ttl c t, access_count = 0,
               compressed = z\<rparr>)]) \<and>
      evictions (stats (snd (cache_set lib k v t now c))) = evictions (stats c) + 1) \<and>
   (0 \<le> max_size c \<and> int (length (cache c)) \<le> max_size c \<longrightarrow>
      int (length (cache (snd (cache_set lib k' v' t' now' c)))) \<le> max_size c) \<and>
   (int (length (cache c)) = max_size c \<and>
    distinct (map fst (cache c)) \<and>
    generate_key lib k \<notin> fst ` set (cache c) \<and>
    compress_data lib (compress_threshold c) v = Some (d, z) \<and>
    2 \<le> max_size c \<and>
    fst (cache_get lib a now0 c) = Some w \<and> map_of (cache c) (generate_key lib a) = Some e \<longrightarrow>
      cache (snd (cache_set lib k v t now (snd (cache_get lib a now0 c)))) =
        tl (del_key (generate_key lib a) (cache c)) @
          [(generate_key lib a, e\<lparr>access_count := access_count e + 1\<rparr>),
           (generate_key lib k,
              \<lparr>data = d, timestamp = now, ttl = effective_ttl c t, access_count = 0,
               compressed = z\<rparr>)] \<and>
      generate_key lib a \<in>
        fst ` set (cache (snd (cache_set lib k v t now (snd (cache_get lib a now0 c))))) \<and>
      evictions (stats (snd (cache_set lib k v t now (snd (cache_get lib a now0 c))))) =
        evictions (stats c) + 1 \<and>
      int (length (cache (snd (cache_set lib k v t now (snd (cache_get lib a now0 c))))))
        \<le> max_size c)"
proof -
  define ka where "ka = generate_key lib a"
  define e1 where "e1 = e\<lparr>access_count := access_count e + 1\<rparr>"
  define new where
    "new = \<lparr>data = d, timestamp = now, ttl = effective_ttl c t, access_count = 0, compressed = z\<rparr>"
  have moved: "cache (snd (cache_get lib a now0 c)) = del_key ka (cache c) @ [(ka, e1)]"
    if hit: "fst (cache_get lib a now0 c) = Some w" and present: "map_of (cache c) ka = Some e"
  proof -
    from hit obtain e' where "map_of (cache c) ka = Some e'"
      and "cache (snd (cache_get lib a now0 c)) =
             del_key ka (cache c) @ [(ka, e'\<lparr>access_count := access_count e' + 1\<rparr>)]"
      unfolding ka_def by (rule cache_get_hit)
    with present show ?thesis by (simp add: e1_def)
  qed
  have inserted:
    "fst (cache_set lib k v t now c) = False \<and>
     cache (snd (cache_set lib k v t now c)) = tl (cache c @ [(generate_key lib k, new)]) \<and>
     evictions (stats (snd (cache_set lib k v t now c))) = evictions (stats c) + 1"
    if "int (length (cache c)) = max_size c" "generate_key lib k \<notin> fst ` set (cache c)"
      "compress_data lib (compress_threshold c) v = Some (d, z)"
    using cache_set_full [OF that, of t now] by (simp add: new_def)
  have bounded: "int (length (cache (snd (cache_set lib k' v' t' now' c)))) \<le> max_size c"
    if "0 \<le> max_size c" "int (length (cache c)) \<le> max_size c"
    using that by (rule cache_set_bounded)
  have after_hit:
    "cache (snd (cache_set lib k v t now (snd (cache_get lib a now0 c)))) =
       tl (del_key ka (cache c)) @ [(ka, e1), (generate_key lib k, new)] \<and>
     ka \<in> fst ` set (cache (snd (cache_set lib k v t now (snd (cache_get lib a now0 c))))) \<and>
     evictions (stats (snd (cache_set lib k v t now (snd (cache_get lib a now0 c))))) =
       evictions (stats c) + 1 \<and>
     int (length (cache (snd (cache_set lib k v t now (snd (cache_get lib a now0 c))))))
       \<le> max_size c"
    if full: "int (length (cache c)) = max_size c"
      and uniq: "distinct (map fst (cache c))"
      and fresh: "generate_key lib k \<notin> fst ` set (cache c)"
      and ser: "compress_data lib (compress_threshold c) v = Some (d, z)"
      and two: "2 \<le> max_size c"
      and hit: "fst (cache_get lib a now0 c) = Some w"
      and present: "map_of (cache c) ka = Some e"
  proof -
    define c1 where "c1 = snd (cache_get lib a now0 c)"
    have c1_cache: "cache c1 = del_key ka (cache c) @ [(ka, e1)]"
      unfolding c1_def using hit present by (rule moved)
    from hit obtain e' where c1_max: "max_size c1 = max_size c"
      and c1_thr: "compress_threshold c1 = compress_threshold c"
      and c1_ev: "evictions (stats c1) = evictions (stats c)"
      and c1_ttl: "default_ttl c1 = default_ttl c"
      unfolding c1_def by (rule cache_get_hit)
    from present have ka_in: "ka \<in> fst ` set (cache c)"
      by (metis map_of_eq_None_iff option.distinct(1))
    have len: "Suc (length (del_key ka (cache c))) = length (cache c)"
      using uniq ka_in by (rule del_key_length_distinct)
    have full1: "int (length (cache c1)) = max_size c1"
      using len full by (simp add: c1_cache c1_max)
    have "generate_key lib k \<noteq> ka" using fresh ka_in by auto
    moreover have "generate_key lib k \<notin> fst ` set (del_key ka (cache c))"
      using fresh by (auto simp: del_key_def)
    ultimately have fresh1: "generate_key lib k \<notin> fst ` set (cache c1)"
      by (auto simp: c1_cache)
    have ser1: "compress_data lib (compress_threshold c1) v = Some (d, z)"
      using ser by (simp add: c1_thr)
    have ttl1: "effective_ttl c1 t = effective_ttl c t"
      unfolding effective_ttl_def c1_ttl by (rule refl)
    note step = cache_set_full [OF full1 fresh1 ser1, of t now]
    from two len full obtain x xs where split: "del_key ka (cache c) = x # xs"
      by (cases "del_key ka (cache c)") auto
    have order: "cache (snd (cache_set lib k v t now c1)) =
        tl (del_key ka (cache c)) @ [(ka, e1), (generate_key lib k, new)]"
      unfolding step(2) c1_cache split ttl1 by (simp add: new_def)
    then have "ka \<in> fst ` set (cache (snd (cache_set lib k v t now c1)))"
      by simp
    moreover have "evictions (stats (snd (cache_set lib k v t now c1))) = evictions (stats c) + 1"
      unfolding step(3) c1_ev by simp
    moreover have "int (length (cache (snd (cache_set lib k v t now c1)))) \<le> max_size c"
      unfolding step(2) using full1 c1_max by simp
    ultimately show ?thesis using order unfolding c1_def by blast
  qed
  show ?thesis
    using moved inserted bounded after_hit
    unfolding ka_def [symmetric] e1_def [symmetric] new_def [symmetric] by blast
qed

text \<open>
  The witness: capacity two, holding \<^verbatim>\<open>A\<close> (least recently used) and \<^verbatim>\<open>B\<close>.
  Inserting \<^verbatim>\<open>C\<close> evicts \<^verbatim>\<open>A\<close>; reading \<^verbatim>\<open>A\<close> first makes \<^verbatim>\<open>B\<close> the head,
  and inserting \<^verbatim>\<open>C\<close> then evicts \<^verbatim>\<open>B\<close> and keeps \<^verbatim>\<open>A\<close>.
\<close>

theorem lru_eviction_on_full_cache_witness:
  "int (length (cache two_slot_cache)) = max_size two_slot_cache \<and>
   distinct (map fst (cache two_slot_cache)) \<and>
   generate_key demo_lib [''C''] \<notin> fst ` set (cache two_slot_cache) \<and>
   compress_data demo_lib (compress_threshold two_slot_cache) ''c'' = Some (''Sc'', False) \<and>
   2 \<le> max_size two_slot_cache \<and>
   fst (cache_get demo_lib [''A''] 2 two_slot_cache) = Some ''a'' \<and>
   map_of (cache two_slot_cache) (generate_key demo_lib [''A'']) =
     Some \<lparr>data = ''Sa'', timestamp = 0, ttl = 300, access_count = 0, compressed = False\<rparr> \<and>
   map fst (cache two_slot_cache) = [''A'', ''B''] \<and>
   map fst (cache (snd (cache_get demo_lib [''A''] 2 two_slot_cache))) = [''B'', ''A''] \<and>
   map fst (cache (snd (cache_set demo_lib [''C''] ''c'' None 3 two_slot_cache))) = [''B'', ''C''] \<and>
   map fst (cache (snd (cache_set demo_lib [''C''] ''c'' None 3
                     (snd (cache_get demo_lib [''A''] 2 two_slot_cache))))) = [''A'', ''C''] \<and>
   evictions (stats (snd (cache_set demo_lib [''C''] ''c'' None 3 two_slot_cache))) =
     evictions (stats two_slot_cache) + 1 \<and>
   int (length (cache (snd (cache_set demo_lib [''C''] ''c'' None 3 two_slot_cache))))
     \<le> max_size two_slot_cache"
proof -
  define e where
    "e = \<lparr>data = ''Sa'', timestamp = 0, ttl = 300, access_count = 0, compressed = False\<rparr>"
  have full: "int (length (cache two_slot_cache)) = max_size two_slot_cache" by code_simp
  have uniq: "distinct (map fst (cache two_slot_cache))" by code_simp
  have keys: "map fst (cache two_slot_cache) = [''A'', ''B'']" by code_simp
  have key_a: "generate_key demo_lib [''A''] = ''A''" by code_simp
  have key_c: "generate_key demo_lib [''C''] = ''C''" by code_simp
  have fresh: "generate_key demo_lib [''C''] \<notin> fst ` set (cache two_slot_cache)"
    unfolding key_c image_set keys by simp
  have ser: "compress_data demo_lib (compress_threshold two_slot_cache) ''c'' = Some (''Sc'', False)"
    by code_simp
  have two: "2 \<le> max_size two_slot_cache" by code_simp
  have hit: "fst (cache_get demo_lib [''A''] 2 two_slot_cache) = Some ''a''" by code_simp
  have present: "map_of (cache two_slot_cache) (generate_key demo_lib [''A'']) = Some e"
    unfolding e_def by code_simp
  have rest: "map fst (del_key ''A'' (cache two_slot_cache)) = [''B'']" by code_simp
  note inst = lru_eviction_on_full_cache [of demo_lib "[''A'']" 2 two_slot_cache "''a''" e
      "[''C'']" "''c''" "''Sc''" False None 3 "[''C'']" "''c''" None 3]
  from inst hit present have moved: "cache (snd (cache_get demo_lib [''A''] 2 two_slot_cache)) =
      del_key ''A'' (cache two_slot_cache) @ [(''A'', e\<lparr>access_count := access_count e + 1\<rparr>)]"
    unfolding key_a by blast
  have order1: "map fst (cache (snd (cache_get demo_lib [''A''] 2 two_slot_cache))) = [''B'', ''A'']"
    unfolding moved by (simp add: rest)
  from inst full fresh ser have ins:
      "cache (snd (cache_set demo_lib [''C''] ''c'' None 3 two_slot_cache)) =
        tl (cache two_slot_cache @ [(''C'',
              \<lparr>data = ''Sc'', timestamp = 3, ttl = effective_ttl two_slot_cache None, access_count = 0,
               compressed = False\<rparr>)])"
    and ev: "evictions (stats (snd (cache_set demo_lib [''C''] ''c'' None 3 two_slot_cache))) =
        evictions (stats two_slot_cache) + 1"
    unfolding key_c by blast+
  have order2: "map fst (cache (snd (cache_set demo_lib [''C''] ''c'' None 3 two_slot_cache))) =
      [''B'', ''C'']"
    unfolding ins using keys by (cases "cache two_slot_cache") auto
  from inst full have size: "int (length (cache (snd (cache_set demo_lib [''C''] ''c'' None 3 two_slot_cache))))
      \<le> max_size two_slot_cache"
    by simp
  from inst full uniq fresh ser two hit present have both:
      "cache (snd (cache_set demo_lib [''C''] ''c'' None 3
                (snd (cache_get demo_lib [''A''] 2 two_slot_cache)))) =
        tl (del_key ''A'' (cache two_slot_cache)) @
          [(''A'', e\<lparr>access_count := access_count e + 1\<rparr>),
           (''C'', \<lparr>data = ''Sc'', timestamp = 3, ttl = effective_ttl two_slot_cache None,
                    access_count = 0, compressed = False\<rparr>)]"
    unfolding key_a key_c by blast
  have order3: "map fst (cache (snd (cache_set demo_lib [''C''] ''c'' None 3
      (snd (cache_get demo_lib [''A''] 2 two_slot_cache))))) = [''A'', ''C'']"
    unfolding both using rest by (cases "del_key ''A'' (cache two_slot_cache)") auto
  show ?thesis
    using full uniq fresh ser two hit present keys order1 order2 order3 ev size
    unfolding e_def by blast
qed

section \<open>The cleaning of a fresh answer\<close>




























section \<open>Bulk operations, the executor and the parser on concrete inputs\<close>

text \<open>
  Claim C6 on identifiers that do not decompose. \<^verbatim>\<open>Fa0/1\<close> does not start with
  \<^verbatim>\<open>Gi\<close> and \<^verbatim>\<open>Gi0/1\<close> has two parts: both are skipped by the grouping loop and
  appear in no range, alone or next to a well-formed identifier. Only an identifier on
  which \<^verbatim>\<open>int\<close> raises, such as \<^verbatim>\<open>Gi1/0/x\<close>, reaches the fallback that lists
  every identifier on its own.
\<close>

theorem create_interface_ranges_drops_identifier:
  "create_interface_ranges [''Gi1/0/1'', ''Fa0/1''] = [''gi1/0/1''] \<and>
   create_interface_ranges [''Fa0/1''] = [] \<and>
   create_interface_ranges [''Gi1/0/1'', ''Gi0/1''] = [''gi1/0/1''] \<and>
   create_interface_ranges [''Gi1/0/1'', ''Gi1/0/x''] = [''gi1/0/1'', ''gi1/0/x'']"
  by code_simp

text \<open>
  Claim C2 on the one-element list \<^verbatim>\<open>['Fa0/1']\<close> with the default batch size 12,
  for any channel: the only batch has no ranges, so nothing is sent and nothing is
  recorded; both bulk operations return the empty map.
\<close>

theorem bulk_result_map_misses_port:
  "fst (bulk_disable_interfaces_optimized ops [''Fa0/1''] 12 ch) ''Fa0/1'' = None \<and>
   fst (bulk_enable_interfaces_optimized ops [''Fa0/1''] 12 ch) ''Fa0/1'' = None \<and>
   fst (bulk_disable_interfaces_optimized ops [''Fa0/1''] 12 ch) = Map.empty \<and>
   fst (bulk_enable_interfaces_optimized ops [''Fa0/1''] 12 ch) = Map.empty"
proof -
  have ranges: "create_interface_ranges [''Fa0/1''] = []" by code_simp
  have batches: "make_batches 12 [''Fa0/1''] = Some [[''Fa0/1'']]"
    by (simp add: make_batches_def chunks.simps)
  show ?thesis
    by (simp add: bulk_disable_interfaces_optimized_def bulk_enable_interfaces_optimized_def
        bulk_interfaces_optimized_def batches ranges)
qed



text \<open>
  Claim C8 on the lines a device prints. The first three follow the keyword rules. The
  line of an administratively down interface also contains \<^verbatim>\<open>is down\<close> (in
  \<^verbatim>\<open>line protocol is down\<close>), and that branch comes first in the chain: the status is
  \<^verbatim>\<open>down\<close>, not \<^verbatim>\<open>disabled\<close>.
\<close>

theorem parse_basic_admin_down_is_down:
  "map_option status
     (parse_basic_interfaces ''GigabitEthernet1/0/1 is up, line protocol is up (connected)''
        ''GigabitEthernet1/0/1'') = Some ''connected'' \<and>
   map_option status
     (parse_basic_interfaces ''GigabitEthernet1/0/2 is up, line protocol is down''
        ''GigabitEthernet1/0/2'') = Some ''up'' \<and>
   map_option status
     (parse_basic_interfaces ''GigabitEthernet1/0/3 is down, line protocol is down (notconnect)''
        ''GigabitEthernet1/0/3'') = Some ''notconnect'' \<and>
   map_option status
     (parse_basic_interfaces
        ''GigabitEthernet1/0/4 is administratively down, line protocol is down (disabled)''
        ''GigabitEthernet1/0/4'') = Some ''down'' \<and>
   contains
     (lower ''GigabitEthernet1/0/4 is administratively down, line protocol is down (disabled)'')
     ''administratively down''"
  by code_simp

end
